theory Spec2Isabelle
  imports Complex_Main
begin

section \<open>The JSON to XLSX converter (src/converter.js)\<close>

text \<open>
  The converter reads a JSON file whose top level is an array, flattens every element
  into a one-level record with dotted keys, derives the column headers from the
  flattened records, lets the user select columns, and writes the selected columns to
  a spreadsheet. This theory embeds the class \<^verbatim>\<open>JsonToXlsxConverter\<close>: its recursive
  transform \<^verbatim>\<open>#flattenAndCleanObject\<close>, the header expression shared by
  \<^verbatim>\<open>#populateFieldSelection\<close> and \<^verbatim>\<open>#renderTable\<close>, the row projection of the two
  selection handlers, and the two event handlers with the private fields they update.
\<close>

subsection \<open>Values\<close>

text \<open>
  A value as \<^verbatim>\<open>JSON.parse\<close> returns it. A number is the real it denotes (the rounding to
  a double is not modelled). An object is the list of its own properties in the order
  in which the engine enumerates them; \<^verbatim>\<open>JSON.parse\<close> never yields two properties of
  one name, lists the names that are array indices first, and gives every object the
  prototype \<^verbatim>\<open>Object.prototype\<close>.
\<close>

datatype json =
    JNull
  | JBool bool
  | JNum real
  | JStr string
  | JArr "json list"
  | JObj "(string \<times> json) list"

text \<open>
  What a property of a record made by the script can hold, and what a property read
  can yield: \<^verbatim>\<open>undefined\<close>, a parsed value, the object \<^verbatim>\<open>Object.prototype\<close> (read through
  the accessor \<^verbatim>\<open>__proto__\<close>), or the function that \<^verbatim>\<open>Object.prototype\<close> holds under a name.
\<close>

datatype jsval = Undefined | Defined json | PrototypeObject | Builtin string

text \<open>The exceptions that the script can meet.\<close>

datatype exn = TypeError | RangeError

text \<open>
  What the script takes from its environment: the engine's conversion of a number to
  a string; the library call \<^verbatim>\<open>moment(timestamp).format('YYYY-MM-DD HH:mm:ss')\<close>, which
  depends on the local time zone; how many calls of \<^verbatim>\<open>#flattenAndCleanObject\<close> can be
  nested below the first before the engine throws a \<^verbatim>\<open>RangeError\<close> for the exhausted
  call stack; and the message text of an exception.
\<close>

record host =
  numberToString :: "real \<Rightarrow> string"
  momentFormat :: "real \<Rightarrow> string"
  stackLimit :: nat
  errorMessage :: "exn \<Rightarrow> string"

text \<open>The operator \<^verbatim>\<open>typeof\<close>; it answers \<^verbatim>\<open>'object'\<close> for \<^verbatim>\<open>null\<close> and for arrays.\<close>

fun typeof :: "json \<Rightarrow> string" where
  "typeof JNull = ''object''"
| "typeof (JBool b) = ''boolean''"
| "typeof (JNum n) = ''number''"
| "typeof (JStr s) = ''string''"
| "typeof (JArr xs) = ''object''"
| "typeof (JObj kvs) = ''object''"

fun isArray :: "json \<Rightarrow> bool" where
  "isArray (JArr xs) = True"
| "isArray v = False"

subsection \<open>Built-in string conversions\<close>

fun sepConcat :: "string \<Rightarrow> string list \<Rightarrow> string" where
  "sepConcat sep [] = []"
| "sepConcat sep [x] = x"
| "sepConcat sep (x # y # ys) = x @ sep @ sepConcat sep (y # ys)"

text \<open>
  \<^verbatim>\<open>ToString\<close> of a value, and \<^verbatim>\<open>Array.prototype.join\<close>, which writes \<^verbatim>\<open>null\<close> and
  \<^verbatim>\<open>undefined\<close> elements as the empty string.
\<close>

fun toString :: "host \<Rightarrow> json \<Rightarrow> string" where
  "toString h JNull = ''null''"
| "toString h (JBool b) = (if b then ''true'' else ''false'')"
| "toString h (JNum n) = numberToString h n"
| "toString h (JStr s) = s"
| "toString h (JArr xs) =
     sepConcat '','' (map (\<lambda>x. if x = JNull then [] else toString h x) xs)"
| "toString h (JObj kvs) = ''[object Object]''"

definition join :: "host \<Rightarrow> json list \<Rightarrow> string \<Rightarrow> string" where
  "join h xs sep = sepConcat sep (map (\<lambda>x. if x = JNull then [] else toString h x) xs)"

definition hexDigit :: "nat \<Rightarrow> char" where
  "hexDigit n = ''0123456789abcdef'' ! (n mod 16)"

text \<open>\<^verbatim>\<open>QuoteJSONString\<close>, one character at a time.\<close>

definition escapeChar :: "char \<Rightarrow> string" where
  "escapeChar c =
     (if c = CHR 0x22 then [CHR 0x5C, CHR 0x22]
      else if c = CHR 0x5C then [CHR 0x5C, CHR 0x5C]
      else if c = CHR 0x08 then [CHR 0x5C, CHR ''b'']
      else if c = CHR 0x0C then [CHR 0x5C, CHR ''f'']
      else if c = CHR 0x0A then [CHR 0x5C, CHR ''n'']
      else if c = CHR 0x0D then [CHR 0x5C, CHR ''r'']
      else if c = CHR 0x09 then [CHR 0x5C, CHR ''t'']
      else if (of_char c :: nat) < 32
        then [CHR 0x5C, CHR ''u'', CHR ''0'', CHR ''0'',
              hexDigit (of_char c div 16), hexDigit (of_char c)]
      else [c])"

definition quoteJSONString :: "string \<Rightarrow> string" where
  "quoteJSONString s = CHR 0x22 # concat (map escapeChar s) @ [CHR 0x22]"

text \<open>\<^verbatim>\<open>JSON.stringify\<close> with one argument: the compact form, no white space.\<close>

fun stringify :: "host \<Rightarrow> json \<Rightarrow> string" where
  "stringify h JNull = ''null''"
| "stringify h (JBool b) = (if b then ''true'' else ''false'')"
| "stringify h (JNum n) = numberToString h n"
| "stringify h (JStr s) = quoteJSONString s"
| "stringify h (JArr xs) = ''['' @ sepConcat '','' (map (stringify h) xs) @ '']''"
| "stringify h (JObj kvs) =
     ''{'' @ sepConcat '','' (map (\<lambda>(k, v). quoteJSONString k @ '':'' @ stringify h v) kvs)
       @ ''}''"

text \<open>
  \<^verbatim>\<open>String.prototype.replace\<close> with a string pattern: only the first occurrence is
  replaced. The replacement \<^verbatim>\<open>'.xlsx'\<close> has no \<^verbatim>\<open>$\<close> pattern.
\<close>

definition startsWith :: "string \<Rightarrow> string \<Rightarrow> bool" where
  "startsWith s pat = (take (length pat) s = pat)"

fun replace :: "string \<Rightarrow> string \<Rightarrow> string \<Rightarrow> string" where
  "replace [] pat rep = (if pat = [] then rep else [])"
| "replace (c # cs) pat rep =
     (if startsWith (c # cs) pat then rep @ drop (length pat) (c # cs)
      else c # replace cs pat rep)"

subsection \<open>Objects\<close>

text \<open>
  A record made by the script: its own properties in the order in which the engine
  enumerates them (the names that are array indices first, by value, then the other
  names in the order of their creation), and its prototype. An object literal starts
  with the prototype \<^verbatim>\<open>Object.prototype\<close>; an assignment to \<^verbatim>\<open>__proto__\<close> can change it.
\<close>

datatype proto = ObjectProto | NullProto | OtherProto jsval

record jsobject =
  props :: "(string \<times> jsval) list"
  prototype :: proto

definition emptyObject :: jsobject where
  "emptyObject = \<lparr> props = [], prototype = ObjectProto \<rparr>"

definition isDigit :: "char \<Rightarrow> bool" where
  "isDigit c = (48 \<le> (of_char c :: nat) \<and> (of_char c :: nat) \<le> 57)"

definition indexValue :: "string \<Rightarrow> nat" where
  "indexValue k = foldl (\<lambda>n c. 10 * n + (of_char c - 48)) 0 k"

text \<open>An array index: a decimal numeral without a leading zero, below 4294967295.\<close>

definition isArrayIndex :: "string \<Rightarrow> bool" where
  "isArrayIndex k =
     (k \<noteq> [] \<and> list_all isDigit k \<and> (k = ''0'' \<or> hd k \<noteq> CHR ''0'')
      \<and> indexValue k < 4294967295)"

fun insertIndexed :: "string \<Rightarrow> 'v \<Rightarrow> (string \<times> 'v) list \<Rightarrow> (string \<times> 'v) list" where
  "insertIndexed k v [] = [(k, v)]"
| "insertIndexed k v ((k', v') # ps) =
     (if isArrayIndex k' \<and> indexValue k' < indexValue k
      then (k', v') # insertIndexed k v ps
      else (k, v) # (k', v') # ps)"

text \<open>A new own property takes its place in the order of enumeration.\<close>

definition addProp :: "string \<Rightarrow> 'v \<Rightarrow> (string \<times> 'v) list \<Rightarrow> (string \<times> 'v) list" where
  "addProp k v ps = (if isArrayIndex k then insertIndexed k v ps else ps @ [(k, v)])"

fun replaceProp :: "string \<Rightarrow> 'v \<Rightarrow> (string \<times> 'v) list \<Rightarrow> (string \<times> 'v) list" where
  "replaceProp k v [] = []"
| "replaceProp k v ((k', v') # ps) =
     (if k' = k then (k, v) # ps else (k', v') # replaceProp k v ps)"

fun isObjectValue :: "jsval \<Rightarrow> bool" where
  "isObjectValue (Defined (JObj kvs)) = True"
| "isObjectValue (Defined (JArr xs)) = True"
| "isObjectValue PrototypeObject = True"
| "isObjectValue (Builtin f) = True"
| "isObjectValue v = False"

text \<open>
  The assignment \<^verbatim>\<open>obj[k] = v\<close>. An own property is overwritten in its place. Otherwise
  the name \<^verbatim>\<open>__proto__\<close> reaches the accessor of \<^verbatim>\<open>Object.prototype\<close>, unless the
  prototype is \<^verbatim>\<open>null\<close>: its setter takes \<^verbatim>\<open>null\<close> or an object as the new prototype,
  ignores every other value, and adds no property. Any other name becomes a new own
  property.
\<close>

definition setProp :: "string \<Rightarrow> jsval \<Rightarrow> jsobject \<Rightarrow> jsobject" where
  "setProp k v obj =
     (if k \<in> set (map fst (props obj)) then obj\<lparr> props := replaceProp k v (props obj) \<rparr>
      else if k = ''__proto__'' \<and> prototype obj \<noteq> NullProto then
        (if v = Defined JNull then obj\<lparr> prototype := NullProto \<rparr>
         else if v = PrototypeObject then obj\<lparr> prototype := ObjectProto \<rparr>
         else if isObjectValue v then obj\<lparr> prototype := OtherProto v \<rparr>
         else obj)
      else obj\<lparr> props := addProp k v (props obj) \<rparr>)"

definition objectPrototypeFunctions :: "string list" where
  "objectPrototypeFunctions =
     [''constructor'', ''__defineGetter__'', ''__defineSetter__'', ''hasOwnProperty'',
      ''__lookupGetter__'', ''__lookupSetter__'', ''isPrototypeOf'',
      ''propertyIsEnumerable'', ''toString'', ''valueOf'', ''toLocaleString'']"

text \<open>
  What a read finds in \<^verbatim>\<open>Object.prototype\<close> for a receiver with the given prototype: the
  accessor \<^verbatim>\<open>__proto__\<close> answers the prototype of the receiver.
\<close>

definition fromObjectPrototype :: "proto \<Rightarrow> string \<Rightarrow> jsval" where
  "fromObjectPrototype p k =
     (if k = ''__proto__'' then (case p of OtherProto v \<Rightarrow> v | _ \<Rightarrow> PrototypeObject)
      else if k \<in> set objectPrototypeFunctions then Builtin k
      else Undefined)"

text \<open>
  The read \<^verbatim>\<open>row[field]\<close>: the own property, or else what the prototype chain holds. The
  script gives its records no prototype but \<^verbatim>\<open>Object.prototype\<close> and \<^verbatim>\<open>null\<close> (lemmas
  \<open>flattenProps_prototype\<close> and \<open>projectRow_prototype\<close>); for the third case the
  chain is followed through a parsed object and taken to end in \<^verbatim>\<open>Object.prototype\<close>.
\<close>

definition getProp :: "jsobject \<Rightarrow> string \<Rightarrow> jsval" where
  "getProp row field =
     (case map_of (props row) field of
        Some v \<Rightarrow> v
      | None \<Rightarrow>
          (case prototype row of
             NullProto \<Rightarrow> Undefined
           | ObjectProto \<Rightarrow> fromObjectPrototype ObjectProto field
           | OtherProto (Defined (JObj kvs)) \<Rightarrow>
               (case map_of kvs field of
                  Some x \<Rightarrow> Defined x
                | None \<Rightarrow> fromObjectPrototype (prototype row) field)
           | OtherProto v \<Rightarrow> fromObjectPrototype (prototype row) field))"

definition Object_keys :: "jsobject \<Rightarrow> string list" where
  "Object_keys row = map fst (props row)"

fun showNat :: "nat \<Rightarrow> string" where
  "showNat n =
     (if n < 10 then [''0123456789'' ! n]
      else showNat (n div 10) @ [''0123456789'' ! (n mod 10)])"

text \<open>
  The properties that \<^verbatim>\<open>for (const key in obj)\<close> visits: the own properties of an
  object, the indices of an array or of a string, nothing for \<^verbatim>\<open>null\<close>, a boolean or a
  number. No prototype of these has an enumerable property.
\<close>

fun ownProps :: "json \<Rightarrow> (string \<times> json) list" where
  "ownProps (JObj kvs) = kvs"
| "ownProps (JArr xs) = zip (map showNat [0..<length xs]) xs"
| "ownProps (JStr s) = zip (map showNat [0..<length s]) (map (\<lambda>c. JStr [c]) s)"
| "ownProps v = []"

text \<open>
  The call \<^verbatim>\<open>obj.hasOwnProperty(key)\<close> in the loop finds the function of
  \<^verbatim>\<open>Object.prototype\<close>, which answers true for each visited key, unless the object has an
  own property of the name \<^verbatim>\<open>hasOwnProperty\<close>: a parsed value is no function, and calling
  it throws a \<^verbatim>\<open>TypeError\<close> in the first round of the loop.
\<close>

definition shadowsHasOwnProperty :: "(string \<times> json) list \<Rightarrow> bool" where
  "shadowsHasOwnProperty kvs = (''hasOwnProperty'' \<in> set (map fst kvs))"

subsection \<open>The transform\<close>

definition timestampFields :: "string list" where
  "timestampFields = [''createdOn'', ''modifiedOn'', ''dueDate'', ''reportedTime'', ''remainingTime'']"

definition formatTimestampField :: "host \<Rightarrow> real \<Rightarrow> string" where
  "formatTimestampField h timestamp = momentFormat h timestamp"

text \<open>\<^verbatim>\<open>parentKey ? `${parentKey}.${key}` : key\<close>; the empty string is falsy.\<close>

definition joinKey :: "string \<Rightarrow> string \<Rightarrow> string" where
  "joinKey parentKey key = (if parentKey \<noteq> [] then parentKey @ ''.'' @ key else key)"

text \<open>\<^verbatim>\<open>arr.every(item => typeof item !== 'object' && !Array.isArray(item))\<close>\<close>

definition allSimple :: "json list \<Rightarrow> bool" where
  "allSimple arr = list_all (\<lambda>item. typeof item \<noteq> ''object'' \<and> \<not> isArray item) arr"

text \<open>
  The loop of \<^verbatim>\<open>#flattenAndCleanObject\<close> over the properties of \<^verbatim>\<open>obj\<close>, with the
  branches in the order of the source: a value that is an object, not \<^verbatim>\<open>null\<close> and not
  an array; an array; a number under a timestamp name; anything else. \<open>depth\<close> counts
  the calls that are open below the first one. The nested call fails when the call
  stack is exhausted, and its loop fails when the nested object shadows
  \<^verbatim>\<open>hasOwnProperty\<close>; an exception ends every open loop.
\<close>

fun flattenProps ::
  "host \<Rightarrow> nat \<Rightarrow> (string \<times> json) list \<Rightarrow> string \<Rightarrow> jsobject \<Rightarrow> exn + jsobject"
where
  "flattenProps h depth [] parentKey result = Inr result"
| "flattenProps h depth ((key, JObj kvs) # rest) parentKey result =
     (if stackLimit h \<le> depth then Inl RangeError
      else if shadowsHasOwnProperty kvs then Inl TypeError
      else
        (case flattenProps h (Suc depth) kvs (joinKey parentKey key) result of
           Inl e \<Rightarrow> Inl e
         | Inr result' \<Rightarrow> flattenProps h depth rest parentKey result'))"
| "flattenProps h depth ((key, JArr arr) # rest) parentKey result =
     flattenProps h depth rest parentKey
       (if allSimple arr
        then setProp (joinKey parentKey key) (Defined (JStr (join h arr '', ''))) result
        else setProp (joinKey parentKey key) (Defined (JStr (stringify h (JArr arr)))) result)"
| "flattenProps h depth ((key, JNum n) # rest) parentKey result =
     flattenProps h depth rest parentKey
       (if key \<in> set timestampFields \<and> 0 < n
        then setProp (joinKey parentKey key) (Defined (JStr (formatTimestampField h n))) result
        else setProp (joinKey parentKey key) (Defined (JNum n)) result)"
| "flattenProps h depth ((key, v) # rest) parentKey result =
     flattenProps h depth rest parentKey (setProp (joinKey parentKey key) (Defined v) result)"

definition flattenAndCleanObject ::
  "host \<Rightarrow> nat \<Rightarrow> json \<Rightarrow> string \<Rightarrow> jsobject \<Rightarrow> exn + jsobject"
where
  "flattenAndCleanObject h depth obj parentKey result =
     (if shadowsHasOwnProperty (ownProps obj) then Inl TypeError
      else flattenProps h depth (ownProps obj) parentKey result)"

text \<open>The call \<^verbatim>\<open>this.#flattenAndCleanObject(item)\<close>, with both defaults.\<close>

definition flatten :: "host \<Rightarrow> json \<Rightarrow> exn + jsobject" where
  "flatten h item = flattenAndCleanObject h 0 item [] emptyObject"

text \<open>
  \<^verbatim>\<open>items.map(item => this.#flattenAndCleanObject(item))\<close>: the first exception ends the
  map, and no array is returned.
\<close>

fun flattenAll :: "host \<Rightarrow> json list \<Rightarrow> exn + jsobject list" where
  "flattenAll h [] = Inr []"
| "flattenAll h (item # items) =
     (case flatten h item of
        Inl e \<Rightarrow> Inl e
      | Inr row \<Rightarrow> (case flattenAll h items of Inl e \<Rightarrow> Inl e | Inr rows \<Rightarrow> Inr (row # rows)))"

subsection \<open>Headers and projection\<close>

text \<open>\<^verbatim>\<open>Array.from(new Set(xs))\<close>: a set keeps its elements in the order of insertion.\<close>

definition arrayFromSet :: "string list \<Rightarrow> string list" where
  "arrayFromSet xs = foldl (\<lambda>s x. if x \<in> set s then s else s @ [x]) [] xs"

text \<open>
  The header expression \<^verbatim>\<open>Array.from(new Set(data.flatMap(Object.keys)))\<close> of
  \<^verbatim>\<open>#populateFieldSelection\<close> and \<^verbatim>\<open>#renderTable\<close>.
\<close>

definition deriveFields :: "jsobject list \<Rightarrow> string list" where
  "deriveFields data = arrayFromSet (concat (map Object_keys data))"

text \<open>
  \<^verbatim>\<open>data.map(row => { const newRow = {}; fieldList.forEach(field => { newRow[field] = row[field]; }); return newRow; })\<close>
\<close>

definition projectRow :: "string list \<Rightarrow> jsobject \<Rightarrow> jsobject" where
  "projectRow fieldList row =
     foldl (\<lambda>newRow field. setProp field (getProp row field) newRow) emptyObject fieldList"

definition project :: "jsobject list \<Rightarrow> string list \<Rightarrow> jsobject list" where
  "project data fieldList = map (projectRow fieldList) data"

subsection \<open>The handlers\<close>

text \<open>
  The private fields of the class and the parts of the page that the handlers read
  back: the file of the input element, the message, the check boxes (value and
  checked flag) and the header row of the preview. The cells of the preview and the
  \<^verbatim>\<open>hidden\<close> classes are only written and are left out.
\<close>

record state =
  originalJsonData :: json
  flattenedAndCleanedData :: "jsobject list"
  jsonFileInput :: "string option"
  messageDiv :: string
  fieldCheckboxes :: "(string \<times> bool) list"
  tableHeadersRow :: "string list"

definition initial :: state where
  "initial = \<lparr> originalJsonData = JArr [], flattenedAndCleanedData = [],
     jsonFileInput = None, messageDiv = [], fieldCheckboxes = [], tableHeadersRow = [] \<rparr>"

definition populateFieldSelection :: "jsobject list \<Rightarrow> state \<Rightarrow> state" where
  "populateFieldSelection data s =
     (if data = [] then s
      else s\<lparr> fieldCheckboxes := map (\<lambda>header. (header, True)) (deriveFields data) \<rparr>)"

definition renderTable :: "jsobject list \<Rightarrow> state \<Rightarrow> state" where
  "renderTable data s =
     (if data = [] then s else s\<lparr> tableHeadersRow := deriveFields data \<rparr>)"

text \<open>
  \<^verbatim>\<open>#handleJsonFileChange\<close> up to \<^verbatim>\<open>reader.readAsText(file)\<close>; the argument is the name
  of the chosen file, if one was chosen.
\<close>

definition handleJsonFileChange :: "string option \<Rightarrow> state \<Rightarrow> state" where
  "handleJsonFileChange file s =
     (case file of
        Some name \<Rightarrow>
          s\<lparr> jsonFileInput := Some name, messageDiv := [],
             tableHeadersRow := [], fieldCheckboxes := [] \<rparr>
      | None \<Rightarrow>
          s\<lparr> jsonFileInput := None, messageDiv := [],
             tableHeadersRow := [], fieldCheckboxes := [],
             originalJsonData := JArr [], flattenedAndCleanedData := [] \<rparr>)"

text \<open>
  \<^verbatim>\<open>reader.onload\<close>. The argument is what \<^verbatim>\<open>JSON.parse(e.target.result)\<close> does on the
  text of the file: it throws a \<^verbatim>\<open>SyntaxError\<close> with a message (\<open>Inl\<close>) or returns a
  value (\<open>Inr\<close>). The \<^verbatim>\<open>catch\<close> clause also takes the exceptions of the transform; by
  then the parsed value is stored, and the rows are not.
\<close>

definition readerOnload :: "host \<Rightarrow> string + json \<Rightarrow> state \<Rightarrow> state" where
  "readerOnload h parsed s =
     (case parsed of
        Inl message \<Rightarrow> s\<lparr> messageDiv := ''Error reading JSON file: '' @ message \<rparr>
      | Inr v \<Rightarrow>
          (let s1 = s\<lparr> originalJsonData := v \<rparr> in
           case v of
             JArr items \<Rightarrow>
               (case flattenAll h items of
                  Inl error \<Rightarrow>
                    s1\<lparr> messageDiv := ''Error reading JSON file: '' @ errorMessage h error \<rparr>
                | Inr rows \<Rightarrow>
                    (let s2 = s1\<lparr> flattenedAndCleanedData := rows \<rparr> in
                     renderTable (flattenedAndCleanedData s2)
                       (populateFieldSelection (flattenedAndCleanedData s2) s2)))
           | _ \<Rightarrow> s1\<lparr> messageDiv := ''JSON data must be an array of objects.'' \<rparr>))"

text \<open>A file is chosen and read to its end.\<close>

definition loadFile :: "host \<Rightarrow> string \<Rightarrow> string + json \<Rightarrow> state \<Rightarrow> state" where
  "loadFile h name parsed s = readerOnload h parsed (handleJsonFileChange (Some name) s)"

definition checkedFields :: "state \<Rightarrow> string list" where
  "checkedFields s = map fst (filter snd (fieldCheckboxes s))"

text \<open>The \<^verbatim>\<open>changeHandler\<close> of the check box at position \<open>i\<close>, after the browser toggled it.\<close>

definition changeHandler :: "nat \<Rightarrow> state \<Rightarrow> state" where
  "changeHandler i s =
     (let s1 = s\<lparr> fieldCheckboxes :=
                  (fieldCheckboxes s)[i := (fst (fieldCheckboxes s ! i), \<not> snd (fieldCheckboxes s ! i))] \<rparr>;
          currentSelectedFields = checkedFields s1;
          filteredData = project (flattenedAndCleanedData s1) currentSelectedFields
      in renderTable filteredData s1)"

text \<open>
  What a click on the convert button does besides updating the page: nothing, the
  call \<^verbatim>\<open>XLSX.writeFile\<close> of a workbook whose sheet \<^verbatim>\<open>Data\<close> holds the given rows under
  the given file name, or an uncaught \<^verbatim>\<open>TypeError\<close> (reading \<^verbatim>\<open>name\<close> of \<^verbatim>\<open>files[0]\<close> when
  the input holds no file).
\<close>

datatype effect = NoWrite | WriteFile string "jsobject list" | Uncaught exn

definition handleConvertButtonClick :: "state \<Rightarrow> state \<times> effect" where
  "handleConvertButtonClick s =
     (if flattenedAndCleanedData s = []
      then (s\<lparr> messageDiv := ''No data to convert. Please upload a JSON file first.'' \<rparr>, NoWrite)
      else
        (let s1 = s\<lparr> messageDiv := [] \<rparr>;
             selectedFields = checkedFields s1
         in if selectedFields = []
            then (s1\<lparr> messageDiv := ''Please select at least one field to export.'' \<rparr>, NoWrite)
            else
              (let dataToExport = project (flattenedAndCleanedData s1) selectedFields
               in case jsonFileInput s1 of
                    None \<Rightarrow> (s1, Uncaught TypeError)
                  | Some name \<Rightarrow>
                      (let fileName = replace name ''.json'' ''.xlsx''
                       in (s1\<lparr> messageDiv := ''Conversion successful! Downloading '' @ fileName \<rparr>,
                           WriteFile fileName dataToExport)))))"

subsection \<open>Notions for stating the properties\<close>

text \<open>
  The value that the three branches after the first assign to \<^verbatim>\<open>result[newKey]\<close>, and
  the assignments of a run that throws nothing, in the order in which they happen:
  such a run replays them on \<^verbatim>\<open>result\<close> (lemma \<open>flattenProps_emitted\<close>).
\<close>

fun cleaned :: "host \<Rightarrow> string \<Rightarrow> json \<Rightarrow> json" where
  "cleaned h key (JArr arr) =
     JStr (if allSimple arr then join h arr '', '' else stringify h (JArr arr))"
| "cleaned h key (JNum n) =
     (if key \<in> set timestampFields \<and> 0 < n then JStr (formatTimestampField h n) else JNum n)"
| "cleaned h key v = v"

fun emitted :: "host \<Rightarrow> (string \<times> json) list \<Rightarrow> string \<Rightarrow> (string \<times> jsval) list" where
  "emitted h [] parentKey = []"
| "emitted h ((key, JObj kvs) # rest) parentKey =
     emitted h kvs (joinKey parentKey key) @ emitted h rest parentKey"
| "emitted h ((key, v) # rest) parentKey =
     (joinKey parentKey key, Defined (cleaned h key v)) # emitted h rest parentKey"

text \<open>One assignment \<^verbatim>\<open>result[k] = v\<close>, with the pair \<open>(k, v)\<close> as one argument.\<close>

definition assign :: "jsobject \<Rightarrow> string \<times> jsval \<Rightarrow> jsobject" where
  "assign r e = setProp (fst e) (snd e) r"

text \<open>
  Every property that a run iterates over, at any depth, with the parent key in force
  when the loop reaches it.
\<close>

fun visited :: "(string \<times> json) list \<Rightarrow> string \<Rightarrow> (string \<times> string \<times> json) list" where
  "visited [] parentKey = []"
| "visited ((key, JObj kvs) # rest) parentKey =
     (parentKey, key, JObj kvs) # visited kvs (joinKey parentKey key) @ visited rest parentKey"
| "visited ((key, v) # rest) parentKey = (parentKey, key, v) # visited rest parentKey"

text \<open>
  The key sequences from the root to a leaf or to an array: a value that is an object
  is descended into, any other value ends the path.
\<close>

fun leafPaths :: "(string \<times> json) list \<Rightarrow> string list list" where
  "leafPaths [] = []"
| "leafPaths ((key, JObj kvs) # rest) = map ((#) key) (leafPaths kvs) @ leafPaths rest"
| "leafPaths ((key, v) # rest) = [key] # leafPaths rest"

text \<open>A value that is neither an object nor an array.\<close>

fun isPrimitive :: "json \<Rightarrow> bool" where
  "isPrimitive (JArr xs) = False"
| "isPrimitive (JObj kvs) = False"
| "isPrimitive v = True"

text \<open>The position of the first occurrence, as \<^verbatim>\<open>indexOf\<close> counts it.\<close>

definition firstIndex :: "'a list \<Rightarrow> 'a \<Rightarrow> nat" where
  "firstIndex xs a = length (takeWhile (\<lambda>x. x \<noteq> a) xs)"

text \<open>
  The file name that the interface description asks of the export: the name of the
  input file with its extension, the part from the last dot on, replaced by \<^verbatim>\<open>.xlsx\<close>.
\<close>

definition stripExtension :: "string \<Rightarrow> string" where
  "stripExtension name =
     (if CHR ''.'' \<in> set name then rev (tl (dropWhile (\<lambda>c. c \<noteq> CHR ''.'') (rev name)))
      else name)"

definition specOutputName :: "string \<Rightarrow> string" where
  "specOutputName name = stripExtension name @ ''.xlsx''"

text \<open>An object literal with the given properties.\<close>

definition object :: "(string \<times> jsval) list \<Rightarrow> jsobject" where
  "object ps = \<lparr> props = ps, prototype = ObjectProto \<rparr>"

text \<open>A host for evaluating examples; the strings it returns play no part in them.\<close>

definition aHost :: host where
  "aHost = \<lparr> numberToString = (\<lambda>n. ''1''), momentFormat = (\<lambda>t. ''2023-11-14 22:13:20''),
     stackLimit = 1000, errorMessage = (\<lambda>e. ''error'') \<rparr>"

text \<open>The keys under which the leaves and arrays of a record are written, one for each path.\<close>

definition dottedKeys :: "(string \<times> json) list \<Rightarrow> string list" where
  "dottedKeys kvs = map (foldl joinKey []) (leafPaths kvs)"

section \<open>Properties\<close>

subsection \<open>The tests of the loop and the equations of the model\<close>

text \<open>
  The equations of \<open>flattenProps\<close> match on the value where the source tests it: the
  first test holds of objects only, the second of arrays only, and the third needs a
  number.
\<close>

lemma first_test_iff_object:
  "(typeof v = ''object'' \<and> v \<noteq> JNull \<and> \<not> isArray v) = (\<exists>kvs. v = JObj kvs)"
  by (cases v) simp_all

lemma second_test_iff_array: "isArray v = (\<exists>arr. v = JArr arr)"
  by (cases v) simp_all

lemma third_test_iff_number: "(typeof v = ''number'') = (\<exists>n. v = JNum n)"
  by (cases v) simp_all

subsection \<open>Assignments to a record\<close>

lemma set_replaceProp: "set (replaceProp k v ps) \<subseteq> insert (k, v) (set ps)"
  by (induction ps) (auto split: if_splits)

lemma keys_replaceProp: "map fst (replaceProp k v ps) = map fst ps"
  by (induction ps) auto

lemma map_of_replaceProp_at:
  "map_of (replaceProp k v ps) k' =
     (if k' = k \<and> k \<in> set (map fst ps) then Some v else map_of ps k')"
  by (induction ps) (auto simp: map_of_eq_None_iff [THEN iffD2] rev_image_eqI)

lemma map_of_replaceProp:
  "k \<in> set (map fst ps) \<Longrightarrow> map_of (replaceProp k v ps) = (map_of ps)(k \<mapsto> v)"
  by (rule ext) (simp add: map_of_replaceProp_at)

lemma set_insertIndexed: "set (insertIndexed k v ps) = insert (k, v) (set ps)"
  by (induction ps) (auto split: if_splits)

lemma set_addProp: "set (addProp k v ps) = insert (k, v) (set ps)"
  by (simp add: addProp_def set_insertIndexed)

lemma map_of_insertIndexed_at:
  "k \<notin> set (map fst ps) \<Longrightarrow>
   map_of (insertIndexed k v ps) k' = (if k' = k then Some v else map_of ps k')"
  by (induction ps) auto

lemma map_of_insertIndexed:
  "k \<notin> set (map fst ps) \<Longrightarrow> map_of (insertIndexed k v ps) = (map_of ps)(k \<mapsto> v)"
  by (rule ext) (simp add: map_of_insertIndexed_at)

lemma map_of_addProp:
  "k \<notin> set (map fst ps) \<Longrightarrow> map_of (addProp k v ps) = (map_of ps)(k \<mapsto> v)"
proof (cases "isArrayIndex k")
  case True
  assume "k \<notin> set (map fst ps)"
  then show ?thesis using True by (simp add: addProp_def map_of_insertIndexed)
next
  case False
  assume "k \<notin> set (map fst ps)"
  then have "map_of ps k = None" by (simp add: map_of_eq_None_iff)
  then have "map_of [(k, v)] ++ map_of ps = (map_of ps)(k \<mapsto> v)"
    by (auto simp: map_add_def fun_eq_iff split: option.splits)
  then show ?thesis using False by (simp add: addProp_def)
qed

lemma distinct_insertIndexed:
  "k \<notin> set (map fst ps) \<Longrightarrow> distinct (map fst ps) \<Longrightarrow> distinct (map fst (insertIndexed k v ps))"
  by (induction ps) (auto simp: set_insertIndexed)

lemma distinct_addProp:
  "k \<notin> set (map fst ps) \<Longrightarrow> distinct (map fst ps) \<Longrightarrow> distinct (map fst (addProp k v ps))"
  by (simp add: addProp_def distinct_insertIndexed)

lemma props_setProp: "set (props (setProp k v obj)) \<subseteq> insert (k, v) (set (props obj))"
  using set_replaceProp [of k v "props obj"]
  by (auto simp: setProp_def set_addProp)

lemma keys_setProp_subset:
  "set (Object_keys (setProp k v obj)) \<subseteq> insert k (set (Object_keys obj))"
  using props_setProp [of k v obj] by (fastforce simp: Object_keys_def)

lemma map_of_setProp:
  "k \<noteq> ''__proto__'' \<Longrightarrow> map_of (props (setProp k v obj)) = (map_of (props obj))(k \<mapsto> v)"
  by (simp add: setProp_def map_of_replaceProp map_of_addProp)

lemma map_of_setProp_other:
  "k' \<noteq> k \<Longrightarrow> map_of (props (setProp k v obj)) k' = map_of (props obj) k'"
  by (simp add: setProp_def map_of_replaceProp map_of_addProp)

lemma distinct_setProp:
  "distinct (Object_keys obj) \<Longrightarrow> distinct (Object_keys (setProp k v obj))"
  by (simp add: Object_keys_def setProp_def keys_replaceProp distinct_addProp)

lemma props_foldl_assign: "set (props (foldl assign r es)) \<subseteq> set (props r) \<union> set es"
proof (induction es arbitrary: r)
  case Nil
  then show ?case by simp
next
  case (Cons e es)
  have "set (props (foldl assign (assign r e) es)) \<subseteq> set (props (assign r e)) \<union> set es"
    by (rule Cons.IH)
  moreover have "set (props (assign r e)) \<subseteq> insert e (set (props r))"
    using props_setProp [of "fst e" "snd e" r] by (simp add: assign_def)
  ultimately show ?case by auto
qed

lemma map_of_foldl_assign_other:
  "k \<notin> set (map fst es) \<Longrightarrow> map_of (props (foldl assign r es)) k = map_of (props r) k"
  by (induction es arbitrary: r) (auto simp: assign_def map_of_setProp_other)

lemma map_of_foldl_assign_distinct:
  "distinct (map fst es) \<Longrightarrow> (k, v) \<in> set es \<Longrightarrow> k \<noteq> ''__proto__'' \<Longrightarrow>
   map_of (props (foldl assign r es)) k = Some v"
proof (induction es arbitrary: r)
  case Nil
  then show ?case by simp
next
  case (Cons e es)
  show ?case
  proof (cases "e = (k, v)")
    case True
    then have "k \<notin> set (map fst es)" using Cons.prems(1) by auto
    then have "map_of (props (foldl assign (assign r e) es)) k = map_of (props (assign r e)) k"
      by (rule map_of_foldl_assign_other)
    also have "\<dots> = Some v" using True Cons.prems(3) by (simp add: assign_def map_of_setProp)
    finally show ?thesis by simp
  next
    case False
    then have "(k, v) \<in> set es" using Cons.prems(2) by simp
    moreover have "distinct (map fst es)" using Cons.prems(1) by simp
    ultimately show ?thesis using Cons.IH Cons.prems(3) by simp
  qed
qed

lemma distinct_foldl_assign:
  "distinct (Object_keys r) \<Longrightarrow> distinct (Object_keys (foldl assign r es))"
  by (induction es arbitrary: r) (simp_all add: assign_def distinct_setProp)

lemma flattenProps_emitted:
  "flattenProps h depth kvs parentKey result = Inr result' \<Longrightarrow>
   result' = foldl assign result (emitted h kvs parentKey)"
  by (induction h depth kvs parentKey result arbitrary: result' rule: flattenProps.induct)
     (auto simp: assign_def split: if_splits sum.splits)

lemma flatten_emitted:
  "flatten h obj = Inr row \<Longrightarrow> row = foldl assign emptyObject (emitted h (ownProps obj) [])"
  by (auto simp: flatten_def flattenAndCleanObject_def split: if_splits dest: flattenProps_emitted)

lemma emitted_values_primitive:
  "(k, v) \<in> set (emitted h kvs parentKey) \<Longrightarrow> \<exists>j. v = Defined j \<and> isPrimitive j"
  by (induction h kvs parentKey rule: emitted.induct) (auto split: if_splits)

lemma emitted_keys_extend:
  "parentKey \<noteq> [] \<Longrightarrow> k \<in> set (map fst (emitted h kvs parentKey)) \<Longrightarrow> \<exists>t. k = parentKey @ ''.'' @ t"
  by (induction h kvs parentKey rule: emitted.induct) (auto simp: joinKey_def)

lemma sepConcat_Cons: "sepConcat sep (x # xs) = x @ concat (map ((@) sep) xs)"
  by (induction sep xs arbitrary: x rule: sepConcat.induct) simp_all

lemma joinKey_Nil: "joinKey [] key = key"
  by (simp add: joinKey_def)

lemma joinKey_nonempty: "q \<noteq> [] \<Longrightarrow> joinKey q key = q @ ''.'' @ key"
  by (simp add: joinKey_def)

lemma foldl_joinKey_nonempty: "q \<noteq> [] \<Longrightarrow> foldl joinKey q p = q @ concat (map ((@) ''.'') p)"
  by (induction p arbitrary: q) (simp_all add: joinKey_nonempty)

lemma foldl_joinKey_empty: "foldl joinKey [] p = sepConcat ''.'' (dropWhile (\<lambda>key. key = []) p)"
proof (induction p)
  case Nil
  then show ?case by simp
next
  case (Cons key p)
  show ?case
  proof (cases "key = []")
    case True
    then show ?thesis using Cons.IH by (simp add: joinKey_Nil)
  next
    case False
    then show ?thesis by (simp add: joinKey_Nil foldl_joinKey_nonempty sepConcat_Cons)
  qed
qed

lemma emitted_keys_paths:
  "k \<in> set (map fst (emitted h kvs parentKey)) \<Longrightarrow>
   \<exists>p. p \<in> set (leafPaths kvs) \<and> k = foldl joinKey parentKey p"
proof (induction h kvs parentKey rule: emitted.induct)
  case (1 h parentKey)
  then show ?case by simp
next
  case (2 h key kvs rest parentKey)
  from "2.prems" consider
      (inner) "k \<in> set (map fst (emitted h kvs (joinKey parentKey key)))"
    | (later) "k \<in> set (map fst (emitted h rest parentKey))"
    by auto
  then show ?case
  proof cases
    case inner
    then obtain p where "p \<in> set (leafPaths kvs)" and "k = foldl joinKey (joinKey parentKey key) p"
      using "2.IH"(1) by blast
    then have "key # p \<in> set (leafPaths ((key, JObj kvs) # rest))"
      and "k = foldl joinKey parentKey (key # p)" by simp_all
    then show ?thesis by blast
  next
    case later
    then obtain p where "p \<in> set (leafPaths rest)" and "k = foldl joinKey parentKey p"
      using "2.IH"(2) by blast
    then have "p \<in> set (leafPaths ((key, JObj kvs) # rest))" by simp
    with \<open>k = foldl joinKey parentKey p\<close> show ?thesis by blast
  qed
qed (force+)

lemma leafPaths_hd: "p \<in> set (leafPaths kvs) \<Longrightarrow> p \<noteq> [] \<and> hd p \<in> set (map fst kvs)"
  by (induction kvs rule: leafPaths.induct) auto

lemma visited_emitted:
  "(parentKey, key, v) \<in> set (visited kvs q) \<Longrightarrow> \<not> (\<exists>kvs'. v = JObj kvs') \<Longrightarrow>
   (joinKey parentKey key, Defined (cleaned h key v)) \<in> set (emitted h kvs q)"
  by (induction kvs q rule: visited.induct) auto

lemma visited_nested_emitted:
  "(parentKey, key, JObj kvs') \<in> set (visited kvs q) \<Longrightarrow>
   set (emitted h kvs' (joinKey parentKey key)) \<subseteq> set (emitted h kvs q)"
  by (induction kvs q rule: visited.induct) auto

lemma setProp_prototype:
  "prototype obj \<in> {ObjectProto, NullProto} \<Longrightarrow>
   k \<noteq> ''__proto__'' \<or> \<not> isObjectValue v \<or> v = PrototypeObject \<Longrightarrow>
   prototype (setProp k v obj) \<in> {ObjectProto, NullProto}"
  by (auto simp: setProp_def)

lemma foldl_assign_prototype:
  "prototype r \<in> {ObjectProto, NullProto} \<Longrightarrow> \<forall>e \<in> set es. \<not> isObjectValue (snd e) \<Longrightarrow>
   prototype (foldl assign r es) \<in> {ObjectProto, NullProto}"
proof (induction es arbitrary: r)
  case Nil
  then show ?case by simp
next
  case (Cons e es)
  have "prototype (assign r e) \<in> {ObjectProto, NullProto}"
    unfolding assign_def using Cons.prems by (intro setProp_prototype) simp_all
  then show ?case using Cons.IH Cons.prems(2) by simp
qed

lemma flattenProps_prototype:
  assumes "flattenProps h depth kvs parentKey result = Inr result'"
    and "prototype result \<in> {ObjectProto, NullProto}"
  shows "prototype result' \<in> {ObjectProto, NullProto}"
proof -
  have "\<forall>e \<in> set (emitted h kvs parentKey). \<not> isObjectValue (snd e)"
  proof
    fix e assume "e \<in> set (emitted h kvs parentKey)"
    then have "(fst e, snd e) \<in> set (emitted h kvs parentKey)" by simp
    then obtain j where "snd e = Defined j" and "isPrimitive j"
      using emitted_values_primitive by blast
    then show "\<not> isObjectValue (snd e)" by (cases j) simp_all
  qed
  then show ?thesis
    using flattenProps_emitted [OF assms(1)] assms(2) foldl_assign_prototype by simp
qed

subsection \<open>The transform\<close>

lemmas eval_defs = flatten_def flattenAndCleanObject_def shadowsHasOwnProperty_def joinKey_def
  allSimple_def join_def quoteJSONString_def escapeChar_def timestampFields_def
  formatTimestampField_def setProp_def addProp_def isArrayIndex_def isDigit_def
  indexValue_def emptyObject_def object_def aHost_def

lemmas handler_defs = loadFile_def readerOnload_def handleJsonFileChange_def initial_def
  renderTable_def populateFieldSelection_def deriveFields_def arrayFromSet_def
  Object_keys_def checkedFields_def Let_def

text \<open>
  C1. An array is written at its dotted key as its elements joined with \<^verbatim>\<open>", "\<close> when
  every element is a scalar, \<^verbatim>\<open>null\<close> included, and as its compact JSON text otherwise.
  The test of the source is \<^verbatim>\<open>typeof item !== 'object'\<close>, and \<^verbatim>\<open>typeof null\<close> is
  \<^verbatim>\<open>'object'\<close>: the array \<^verbatim>\<open>["x", null]\<close> has only scalar elements and is written as the
  JSON text \<^verbatim>\<open>["x",null]\<close>, where joining its elements gives \<^verbatim>\<open>x, \<close>.
\<close>

theorem array_with_null_is_stringified:
  \<open>flatten aHost (JObj [(''tags'', JArr [JStr ''x'', JNull])])
     = Inr (object [(''tags'', Defined (JStr ''["x",null]''))])
   \<and> join aHost [JStr ''x'', JNull] '', '' = ''x, ''
   \<and> isPrimitive JNull\<close>
  by (simp add: eval_defs)

lemma emitted_keys_eq: "map fst (emitted h kvs parentKey) = map (foldl joinKey parentKey) (leafPaths kvs)"
  by (induction h kvs parentKey rule: emitted.induct) (simp_all add: comp_def)

text \<open>
  C2, as stated: at a key whose value is an object the transform writes no entry for
  the intermediate path itself. With the empty key at the top level the dotted key is
  empty, the nested call runs with the empty parent key again, and
  \<^verbatim>\<open>flatten({"": {"": 1}})\<close> is \<^verbatim>\<open>{"": 1}\<close>: the record has an entry at the dotted key
  of the intermediate path.
\<close>

theorem empty_key_entry_at_intermediate_path:
  "flatten aHost (JObj [([], JObj [([], JNum 1)])]) = Inr (object [([], Defined (JNum 1))])
   \<and> joinKey [] [] = []
   \<and> [] \<in> set (Object_keys (object [([], Defined (JNum 1))]))"
  by (simp add: eval_defs Object_keys_def)

text \<open>
  C2, amended. When the transform throws nothing, at a key, at any depth, whose value
  is an object (not \<^verbatim>\<open>null\<close>, not an array) the loop calls \<^verbatim>\<open>#flattenAndCleanObject\<close> on the
  value with the dotted key as the new parent key and assigns nothing itself. Every
  entry of the record that the transform makes of the value under that parent key has
  a key that extends the dotted key by a dot and more, when the dotted key is not
  empty; and it is an entry of the flattened record, when no two paths of the input
  share a dotted key and the entry is not named \<^verbatim>\<open>__proto__\<close>. With one nested call
  allowed, \<^verbatim>\<open>flatten({a: {b: 1, c: 2}})\<close> is \<^verbatim>\<open>{"a.b": 1, "a.c": 2}\<close>.
\<close>

theorem nested_object_entries:
  assumes "flatten h obj = Inr row"
    and "(parentKey, key, JObj kvs) \<in> set (visited (ownProps obj) [])"
    and "flattenAndCleanObject h 0 (JObj kvs) (joinKey parentKey key) emptyObject = Inr nested"
    and "(k, v) \<in> set (props nested)"
  shows "(joinKey parentKey key \<noteq> [] \<longrightarrow> (\<exists>t. k = joinKey parentKey key @ ''.'' @ t))
         \<and> (distinct (dottedKeys (ownProps obj)) \<and> k \<noteq> ''__proto__'' \<longrightarrow>
              map_of (props row) k = Some v)
         \<and> flattenProps h depth ((key, JObj kvs) # rest) parentKey result =
             (if stackLimit h \<le> depth then Inl RangeError
              else case flattenAndCleanObject h (Suc depth) (JObj kvs) (joinKey parentKey key) result of
                     Inl e \<Rightarrow> Inl e
                   | Inr result' \<Rightarrow> flattenProps h depth rest parentKey result')
         \<and> (0 < stackLimit h \<longrightarrow>
              flatten h (JObj [(''a'', JObj [(''b'', JNum 1), (''c'', JNum 2)])]) =
                Inr (object [(''a.b'', Defined (JNum 1)), (''a.c'', Defined (JNum 2))]))"
proof (intro conjI impI)
  have "flattenProps h 0 kvs (joinKey parentKey key) emptyObject = Inr nested"
    using assms(3) by (simp add: flattenAndCleanObject_def split: if_splits)
  then have "nested = foldl assign emptyObject (emitted h kvs (joinKey parentKey key))"
    by (rule flattenProps_emitted)
  then have inner: "(k, v) \<in> set (emitted h kvs (joinKey parentKey key))"
    using assms(4) props_foldl_assign [of emptyObject "emitted h kvs (joinKey parentKey key)"]
    by (auto simp: emptyObject_def)
  {
    assume "joinKey parentKey key \<noteq> []"
    moreover have "k \<in> set (map fst (emitted h kvs (joinKey parentKey key)))"
      using inner by force
    ultimately show "\<exists>t. k = joinKey parentKey key @ ''.'' @ t"
      by (rule emitted_keys_extend)
  }
  {
    assume "distinct (dottedKeys (ownProps obj)) \<and> k \<noteq> ''__proto__''"
    then have d: "distinct (map fst (emitted h (ownProps obj) []))" and k: "k \<noteq> ''__proto__''"
      by (simp_all add: dottedKeys_def emitted_keys_eq)
    have "(k, v) \<in> set (emitted h (ownProps obj) [])"
      using inner visited_nested_emitted [OF assms(2)] by blast
    with d have "map_of (props (foldl assign emptyObject (emitted h (ownProps obj) []))) k = Some v"
      using k by (rule map_of_foldl_assign_distinct)
    then show "map_of (props row) k = Some v"
      using flatten_emitted [OF assms(1)] by simp
  }
  show "flattenProps h depth ((key, JObj kvs) # rest) parentKey result =
             (if stackLimit h \<le> depth then Inl RangeError
              else case flattenAndCleanObject h (Suc depth) (JObj kvs) (joinKey parentKey key) result of
                     Inl e \<Rightarrow> Inl e
                   | Inr result' \<Rightarrow> flattenProps h depth rest parentKey result')"
    by (simp add: flattenAndCleanObject_def)
  assume "0 < stackLimit h"
  then show "flatten h (JObj [(''a'', JObj [(''b'', JNum 1), (''c'', JNum 2)])]) =
             Inr (object [(''a.b'', Defined (JNum 1)), (''a.c'', Defined (JNum 2))])"
    apply (simp add: flatten_def flattenAndCleanObject_def shadowsHasOwnProperty_def joinKey_def
        timestampFields_def setProp_def addProp_def isArrayIndex_def isDigit_def
        emptyObject_def object_def)
    done
qed

theorem nested_object_entries_witness:
  "flatten aHost (JObj [(''a'', JObj [(''b'', JNum 1), (''c'', JNum 2)])])
     = Inr (object [(''a.b'', Defined (JNum 1)), (''a.c'', Defined (JNum 2))])
   \<and> ([], ''a'', JObj [(''b'', JNum 1), (''c'', JNum 2)])
       \<in> set (visited (ownProps (JObj [(''a'', JObj [(''b'', JNum 1), (''c'', JNum 2)])])) [])
   \<and> flattenAndCleanObject aHost 0 (JObj [(''b'', JNum 1), (''c'', JNum 2)]) ''a'' emptyObject
       = Inr (object [(''a.b'', Defined (JNum 1)), (''a.c'', Defined (JNum 2))])
   \<and> distinct (dottedKeys (ownProps (JObj [(''a'', JObj [(''b'', JNum 1), (''c'', JNum 2)])])))
   \<and> (\<exists>t. ''a.c'' = ''a'' @ ''.'' @ t)
   \<and> map_of (props (object [(''a.b'', Defined (JNum 1)), (''a.c'', Defined (JNum 2))])) ''a.c''
       = Some (Defined (JNum 2))"
proof -
  let ?obj = "JObj [(''a'', JObj [(''b'', JNum 1), (''c'', JNum 2)])]"
  let ?row = "object [(''a.b'', Defined (JNum 1)), (''a.c'', Defined (JNum 2))]"
  have run: "flatten aHost ?obj = Inr ?row" by (simp add: eval_defs)
  have vis: "([], ''a'', JObj [(''b'', JNum 1), (''c'', JNum 2)]) \<in> set (visited (ownProps ?obj) [])"
    by simp
  have sub: "flattenAndCleanObject aHost 0 (JObj [(''b'', JNum 1), (''c'', JNum 2)]) (joinKey [] ''a'') emptyObject
       = Inr ?row"
    by (simp add: eval_defs)
  have ent: "(''a.c'', Defined (JNum 2)) \<in> set (props ?row)" by (simp add: object_def)
  have d: "distinct (dottedKeys (ownProps ?obj))" by (simp add: dottedKeys_def joinKey_def)
  show ?thesis
    using nested_object_entries [OF run vis sub ent, of 0 "[]" emptyObject] run vis sub d
    by (simp add: joinKey_def)
qed

text \<open>
  C6, as stated: every value of a flattened record is a string or a number. The last
  branch of the loop assigns the value as it is, so \<^verbatim>\<open>flatten({a: null})\<close> is
  \<^verbatim>\<open>{a: null}\<close>, and \<^verbatim>\<open>null\<close> is neither.
\<close>

theorem null_value_passes_through:
  "flatten aHost (JObj [(''a'', JNull)]) = Inr (object [(''a'', Defined JNull)])
   \<and> typeof JNull \<noteq> ''string'' \<and> typeof JNull \<noteq> ''number''"
  by (simp add: eval_defs)

text \<open>
  C6, amended. Every value of the record that the transform makes of any value is
  \<^verbatim>\<open>null\<close>, a boolean, a number or a string: never an object, never an array.
\<close>

theorem flatten_values_primitive:
  assumes "flatten h item = Inr row" and "v \<in> set (map snd (props row))"
  shows "\<exists>j. v = Defined j \<and> isPrimitive j
           \<and> (j = JNull \<or> typeof j = ''boolean'' \<or> typeof j = ''number'' \<or> typeof j = ''string'')"
proof -
  from assms(2) obtain k where "(k, v) \<in> set (props row)" by auto
  then have "(k, v) \<in> set (emitted h (ownProps item) [])"
    using props_foldl_assign [of emptyObject "emitted h (ownProps item) []"]
      flatten_emitted [OF assms(1)]
    by (auto simp: emptyObject_def)
  then obtain j where j: "v = Defined j" "isPrimitive j"
    using emitted_values_primitive by blast
  then have "j = JNull \<or> typeof j = ''boolean'' \<or> typeof j = ''number'' \<or> typeof j = ''string''"
    by (cases j) simp_all
  with j show ?thesis by blast
qed

theorem flatten_values_primitive_witness:
  "flatten aHost (JObj [(''a'', JNull), (''b'', JArr [JArr []])])
     = Inr (object [(''a'', Defined JNull), (''b'', Defined (JStr ''[[]]''))])
   \<and> (\<exists>j. Defined JNull = Defined j \<and> isPrimitive j
           \<and> (j = JNull \<or> typeof j = ''boolean'' \<or> typeof j = ''number'' \<or> typeof j = ''string''))
   \<and> (\<exists>j. Defined (JStr ''[[]]'') = Defined j \<and> isPrimitive j
           \<and> (j = JNull \<or> typeof j = ''boolean'' \<or> typeof j = ''number'' \<or> typeof j = ''string''))"
proof -
  have a: "flatten aHost (JObj [(''a'', JNull), (''b'', JArr [JArr []])])
     = Inr (object [(''a'', Defined JNull), (''b'', Defined (JStr ''[[]]''))])"
    by (simp add: eval_defs)
  have m1: "Defined JNull \<in> set (map snd (props (object [(''a'', Defined JNull), (''b'', Defined (JStr ''[[]]''))])))"
    and m2: "Defined (JStr ''[[]]'') \<in> set (map snd (props (object [(''a'', Defined JNull), (''b'', Defined (JStr ''[[]]''))])))"
    by (simp_all add: object_def)
  show ?thesis
    using flatten_values_primitive [OF a m1] flatten_values_primitive [OF a m2] a by blast
qed

text \<open>
  C8, as stated: every key of the flattened record is the keys along a path from the
  root, joined with dots. The parent key is tested for truth, and the empty string is
  falsy: in \<^verbatim>\<open>{"": {"x": 1}}\<close> the only path has the keys \<^verbatim>\<open>""\<close> and \<^verbatim>\<open>"x"\<close>, which join to
  \<^verbatim>\<open>.x\<close>, and the record has the key \<^verbatim>\<open>x\<close>.
\<close>

theorem empty_key_is_dropped_from_path:
  "flatten aHost (JObj [([], JObj [(''x'', JNum 1)])]) = Inr (object [(''x'', Defined (JNum 1))])
   \<and> Object_keys (object [(''x'', Defined (JNum 1))]) = [''x'']
   \<and> leafPaths [([], JObj [(''x'', JNum 1)])] = [[[], ''x'']]
   \<and> sepConcat ''.'' [[], ''x''] = ''.x''"
  by (simp add: eval_defs Object_keys_def)

text \<open>
  C8, amended. The transform is a total function on records, which are finite trees:
  its recursion descends into the properties of a property, so every run ends, with a
  record or with an exception. Every key of the flattened record belongs to a path
  from the root to a leaf or to an array: it is the keys of that path joined with dots
  once the empty keys at its beginning are dropped, hence all keys of the path joined
  with dots when the path does not begin with an empty key.
\<close>

theorem flatten_keys_are_paths:
  assumes "flatten h (JObj kvs) = Inr row" and "k \<in> set (Object_keys row)"
  shows "\<exists>p. p \<in> set (leafPaths kvs)
             \<and> k = sepConcat ''.'' (dropWhile (\<lambda>key. key = []) p)
             \<and> (hd p \<noteq> [] \<longrightarrow> k = sepConcat ''.'' p)"
proof -
  from assms(2) obtain v where "(k, v) \<in> set (props row)" by (auto simp: Object_keys_def)
  then have "(k, v) \<in> set (emitted h kvs [])"
    using props_foldl_assign [of emptyObject "emitted h kvs []"] flatten_emitted [OF assms(1)]
    by (auto simp: emptyObject_def)
  then have "k \<in> set (map fst (emitted h kvs []))" by force
  then obtain p where p: "p \<in> set (leafPaths kvs)" and k: "k = foldl joinKey [] p"
    using emitted_keys_paths by blast
  have "p \<noteq> []" using p leafPaths_hd by blast
  then have "hd p \<noteq> [] \<Longrightarrow> dropWhile (\<lambda>key. key = []) p = p"
    by (cases p) simp_all
  with k have "k = sepConcat ''.'' (dropWhile (\<lambda>key. key = []) p)"
    and "hd p \<noteq> [] \<longrightarrow> k = sepConcat ''.'' p"
    by (auto simp: foldl_joinKey_empty)
  with p show ?thesis by blast
qed

theorem flatten_keys_are_paths_witness:
  "flatten aHost (JObj [(''a'', JObj [(''b'', JNum 1)])]) = Inr (object [(''a.b'', Defined (JNum 1))])
   \<and> ''a.b'' \<in> set (Object_keys (object [(''a.b'', Defined (JNum 1))]))
   \<and> (\<exists>p. p \<in> set (leafPaths [(''a'', JObj [(''b'', JNum 1)])])
          \<and> ''a.b'' = sepConcat ''.'' (dropWhile (\<lambda>key. key = []) p)
          \<and> (hd p \<noteq> [] \<longrightarrow> ''a.b'' = sepConcat ''.'' p))"
proof -
  have a: "flatten aHost (JObj [(''a'', JObj [(''b'', JNum 1)])]) = Inr (object [(''a.b'', Defined (JNum 1))])"
    by (simp add: eval_defs)
  have b: "''a.b'' \<in> set (Object_keys (object [(''a.b'', Defined (JNum 1))]))"
    by (simp add: Object_keys_def object_def)
  show ?thesis using flatten_keys_are_paths [OF a b] a b by blast
qed

subsection \<open>Loading a file\<close>







text \<open>
  C7. After a load the parsed data and the flattened rows come from the same file, or
  both are as before. The handler assigns the parsed value to \<^verbatim>\<open>#originalJsonData\<close>
  before it tests that the value is an array: after the file \<^verbatim>\<open>[{"a": 1}]\<close> and then
  the file \<^verbatim>\<open>{"b": 2}\<close>, the parsed data is the object of the second file and the rows
  are those of the first.
\<close>

theorem shape_error_keeps_rows_of_previous_file:
  "originalJsonData
     (loadFile aHost ''b.json'' (Inr (JObj [(''b'', JNum 2)]))
       (loadFile aHost ''a.json'' (Inr (JArr [JObj [(''a'', JNum 1)]])) initial))
     = JObj [(''b'', JNum 2)]
   \<and> flattenedAndCleanedData
     (loadFile aHost ''b.json'' (Inr (JObj [(''b'', JNum 2)]))
       (loadFile aHost ''a.json'' (Inr (JArr [JObj [(''a'', JNum 1)]])) initial))
     = [object [(''a'', Defined (JNum 1))]]
   \<and> messageDiv
     (loadFile aHost ''b.json'' (Inr (JObj [(''b'', JNum 2)]))
       (loadFile aHost ''a.json'' (Inr (JArr [JObj [(''a'', JNum 1)]])) initial))
     = ''JSON data must be an array of objects.''"
  by (simp add: handler_defs eval_defs)

subsection \<open>Headers\<close>

lemma arrayFromSet_snoc:
  "arrayFromSet (xs @ [x]) =
     (if x \<in> set (arrayFromSet xs) then arrayFromSet xs else arrayFromSet xs @ [x])"
  by (simp add: arrayFromSet_def)

lemma set_arrayFromSet: "set (arrayFromSet xs) = set xs"
  by (induction xs rule: rev_induct) (auto simp: arrayFromSet_snoc, simp add: arrayFromSet_def)

lemma distinct_arrayFromSet: "distinct (arrayFromSet xs)"
  by (induction xs rule: rev_induct) (simp_all add: arrayFromSet_snoc, simp add: arrayFromSet_def)

lemma firstIndex_append: "a \<in> set xs \<Longrightarrow> firstIndex (xs @ ys) a = firstIndex xs a"
  by (simp add: firstIndex_def takeWhile_append1)

lemma firstIndex_less: "a \<in> set xs \<Longrightarrow> firstIndex xs a < length xs"
  unfolding firstIndex_def by (induction xs) auto

lemma firstIndex_new: "a \<notin> set xs \<Longrightarrow> firstIndex (xs @ [a]) a = length xs"
  unfolding firstIndex_def by (induction xs) auto

lemma arrayFromSet_first_occurrence:
  "sorted_wrt (\<lambda>a b. firstIndex xs a < firstIndex xs b) (arrayFromSet xs)"
proof (induction xs rule: rev_induct)
  case Nil
  then show ?case by (simp add: arrayFromSet_def)
next
  case (snoc x xs)
  have old: "sorted_wrt (\<lambda>a b. firstIndex (xs @ [x]) a < firstIndex (xs @ [x]) b) (arrayFromSet xs)"
    using snoc.IH
    by (rule sorted_wrt_mono_rel [rotated]) (simp add: set_arrayFromSet firstIndex_append)
  show ?case
  proof (cases "x \<in> set xs")
    case True
    then show ?thesis using old by (simp add: arrayFromSet_snoc set_arrayFromSet)
  next
    case False
    have "\<forall>a \<in> set (arrayFromSet xs). firstIndex (xs @ [x]) a < firstIndex (xs @ [x]) x"
      using False by (simp add: set_arrayFromSet firstIndex_append firstIndex_new firstIndex_less)
    with old False show ?thesis
      by (simp add: arrayFromSet_snoc set_arrayFromSet sorted_wrt_append)
  qed
qed

text \<open>
  C4. The headers derived from a sequence of records are the keys of all its records,
  each once, in the order of their first occurrence when the records are read in
  sequence and the keys of a record in the order of that record; no record gives no
  header, and \<^verbatim>\<open>deriveFields([{a:1},{b:2}])\<close> is \<^verbatim>\<open>["a","b"]\<close>.
\<close>

theorem deriveFields_first_occurrence_order:
  "set (deriveFields data) = (\<Union>row \<in> set data. set (Object_keys row))
   \<and> distinct (deriveFields data)
   \<and> sorted_wrt (\<lambda>a b. firstIndex (concat (map Object_keys data)) a
                        < firstIndex (concat (map Object_keys data)) b) (deriveFields data)
   \<and> deriveFields [] = []
   \<and> deriveFields [object [(''a'', Defined (JNum 1))], object [(''b'', Defined (JNum 2))]]
       = [''a'', ''b'']"
proof (intro conjI)
  show "set (deriveFields data) = (\<Union>row \<in> set data. set (Object_keys row))"
    by (simp add: deriveFields_def set_arrayFromSet)
  show "distinct (deriveFields data)"
    by (simp add: deriveFields_def distinct_arrayFromSet)
  show "sorted_wrt (\<lambda>a b. firstIndex (concat (map Object_keys data)) a
                        < firstIndex (concat (map Object_keys data)) b) (deriveFields data)"
    unfolding deriveFields_def by (rule arrayFromSet_first_occurrence)
  show "deriveFields [] = []"
    by (simp add: deriveFields_def arrayFromSet_def)
  show "deriveFields [object [(''a'', Defined (JNum 1))], object [(''b'', Defined (JNum 2))]]
       = [''a'', ''b'']"
    by (simp add: deriveFields_def arrayFromSet_def Object_keys_def object_def)
qed

theorem deriveFields_first_occurrence_order_witness:
  "deriveFields [object [(''b'', Defined (JNum 1)), (''a'', Defined JNull)],
                 object [(''a'', Defined (JNum 2)), (''c'', Defined JNull), (''b'', Defined JNull)]]
     = [''b'', ''a'', ''c'']
   \<and> set [''b'', ''a'', ''c''] =
       (\<Union>row \<in> set [object [(''b'', Defined (JNum 1)), (''a'', Defined JNull)],
                       object [(''a'', Defined (JNum 2)), (''c'', Defined JNull), (''b'', Defined JNull)]].
          set (Object_keys row))
   \<and> distinct [''b'', ''a'', ''c'']"
proof -
  have e: "deriveFields [object [(''b'', Defined (JNum 1)), (''a'', Defined JNull)],
                 object [(''a'', Defined (JNum 2)), (''c'', Defined JNull), (''b'', Defined JNull)]]
     = [''b'', ''a'', ''c'']"
    by (simp add: deriveFields_def arrayFromSet_def Object_keys_def object_def)
  show ?thesis
    using deriveFields_first_occurrence_order
      [of "[object [(''b'', Defined (JNum 1)), (''a'', Defined JNull)],
            object [(''a'', Defined (JNum 2)), (''c'', Defined JNull), (''b'', Defined JNull)]]"]
    unfolding e by simp
qed

subsection \<open>Projection\<close>

lemma keys_foldl_project:
  "set (Object_keys (foldl (\<lambda>newRow field. setProp field (g field) newRow) r fs))
     \<subseteq> set (Object_keys r) \<union> set fs"
proof (induction fs arbitrary: r)
  case Nil
  then show ?case by simp
next
  case (Cons f fs)
  have "set (Object_keys (foldl (\<lambda>newRow field. setProp field (g field) newRow) (setProp f (g f) r) fs))
      \<subseteq> set (Object_keys (setProp f (g f) r)) \<union> set fs"
    by (rule Cons.IH)
  then show ?case using keys_setProp_subset [of f "g f" r] by auto
qed

lemma map_of_foldl_project:
  "f \<noteq> ''__proto__'' \<Longrightarrow>
   map_of (props (foldl (\<lambda>newRow field. setProp field (g field) newRow) r fs)) f =
     (if f \<in> set fs then Some (g f) else map_of (props r) f)"
  by (induction fs arbitrary: r) (auto simp: map_of_setProp map_of_setProp_other)

lemma getProp_absent:
  "field \<notin> set (Object_keys row) \<Longrightarrow> prototype row \<in> {ObjectProto, NullProto} \<Longrightarrow>
   field \<noteq> ''__proto__'' \<Longrightarrow> field \<notin> set objectPrototypeFunctions \<Longrightarrow>
   getProp row field = Undefined"
  by (auto simp: getProp_def Object_keys_def fromObjectPrototype_def
      map_of_eq_None_iff [THEN iffD2])

lemma projectRow_prototype:
  assumes "prototype row \<in> {ObjectProto, NullProto}"
    and "\<forall>v \<in> set (map snd (props row)). \<not> isObjectValue v"
  shows "prototype (projectRow fs row) \<in> {ObjectProto, NullProto}"
proof -
  have val: "f \<noteq> ''__proto__'' \<or> \<not> isObjectValue (getProp row f)
      \<or> getProp row f = PrototypeObject" for f
  proof (cases "map_of (props row) f")
    case None
    then show ?thesis using assms(1)
      by (auto simp: getProp_def fromObjectPrototype_def)
  next
    case (Some v)
    then have "v \<in> set (map snd (props row))" by (force dest: map_of_SomeD)
    then have "\<not> isObjectValue v" using assms(2) by blast
    then show ?thesis using Some by (simp add: getProp_def)
  qed
  have "prototype r \<in> {ObjectProto, NullProto} \<Longrightarrow>
      prototype (foldl (\<lambda>newRow field. setProp field (getProp row field) newRow) r fs)
        \<in> {ObjectProto, NullProto}" for r
  proof (induction fs arbitrary: r)
    case Nil
    then show ?case by simp
  next
    case (Cons f fs)
    have "prototype (setProp f (getProp row f) r) \<in> {ObjectProto, NullProto}"
      using Cons.prems val [of f] by (rule setProp_prototype)
    then show ?case using Cons.IH by simp
  qed
  then show ?thesis by (simp add: projectRow_def emptyObject_def)
qed

text \<open>
  C5, as stated: a field of the list that the source record lacks is left out of the
  projected record. The handlers assign \<^verbatim>\<open>newRow[field] = row[field]\<close> for every field
  of the list, and the read of a missing property is \<^verbatim>\<open>undefined\<close>: the record
  \<^verbatim>\<open>{a: 1}\<close> projected to \<^verbatim>\<open>a\<close> and \<^verbatim>\<open>b\<close> has the key \<^verbatim>\<open>b\<close>.
\<close>

theorem absent_field_is_present_in_projection:
  "project [object [(''a'', Defined (JNum 1))]] [''a'', ''b'']
     = [object [(''a'', Defined (JNum 1)), (''b'', Undefined)]]
   \<and> ''b'' \<in> set (Object_keys (object [(''a'', Defined (JNum 1)), (''b'', Undefined)]))
   \<and> ''b'' \<notin> set (Object_keys (object [(''a'', Defined (JNum 1))]))"
  by (simp add: project_def projectRow_def getProp_def fromObjectPrototype_def
      objectPrototypeFunctions_def Object_keys_def eval_defs)

text \<open>
  C5, amended. The projection gives one record for each source record, in the same
  order, with no key outside the list. A field of the list other than \<^verbatim>\<open>__proto__\<close> is
  a key of the projected record, and its value there is what the read of the field in
  the source record yields: the value of the source record when it has the key, and
  \<^verbatim>\<open>undefined\<close>, not \<^verbatim>\<open>null\<close>, when it has not and the name is not that of a function of
  \<^verbatim>\<open>Object.prototype\<close>, which the read would find.
\<close>

theorem project_keeps_every_listed_field:
  "length (project data fs) = length data
   \<and> (i < length data \<longrightarrow>
        project data fs ! i = projectRow fs (data ! i)
        \<and> set (Object_keys (project data fs ! i)) \<subseteq> set fs
        \<and> (\<forall>field \<in> set fs. field \<noteq> ''__proto__'' \<longrightarrow>
              field \<in> set (Object_keys (project data fs ! i))
              \<and> map_of (props (project data fs ! i)) field = Some (getProp (data ! i) field)
              \<and> (field \<in> set (Object_keys (data ! i)) \<longrightarrow>
                    map_of (props (data ! i)) field = Some (getProp (data ! i) field))
              \<and> (field \<notin> set (Object_keys (data ! i))
                    \<and> prototype (data ! i) \<in> {ObjectProto, NullProto}
                    \<and> field \<notin> set objectPrototypeFunctions \<longrightarrow>
                    getProp (data ! i) field = Undefined)))"
proof (intro conjI impI ballI)
  show "length (project data fs) = length data" by (simp add: project_def)
next
  assume i: "i < length data"
  then show row: "project data fs ! i = projectRow fs (data ! i)" by (simp add: project_def)
  show "set (Object_keys (project data fs ! i)) \<subseteq> set fs"
    using keys_foldl_project [of "getProp (data ! i)" emptyObject fs]
    by (simp add: row projectRow_def emptyObject_def Object_keys_def)
  fix field assume f: "field \<in> set fs" and np: "field \<noteq> ''__proto__''"
  show m: "map_of (props (project data fs ! i)) field = Some (getProp (data ! i) field)"
    using f np by (simp add: row projectRow_def map_of_foldl_project)
  then show "field \<in> set (Object_keys (project data fs ! i))"
    by (force simp: Object_keys_def dest: map_of_SomeD)
  {
    assume "field \<in> set (Object_keys (data ! i))"
    then have "map_of (props (data ! i)) field \<noteq> None"
      by (simp add: Object_keys_def map_of_eq_None_iff)
    then obtain v where "map_of (props (data ! i)) field = Some v" by blast
    then show "map_of (props (data ! i)) field = Some (getProp (data ! i) field)"
      by (simp add: getProp_def)
  }
  {
    assume "field \<notin> set (Object_keys (data ! i))
        \<and> prototype (data ! i) \<in> {ObjectProto, NullProto}
        \<and> field \<notin> set objectPrototypeFunctions"
    then show "getProp (data ! i) field = Undefined"
      using np by (simp add: getProp_absent)
  }
qed

theorem project_keeps_every_listed_field_witness:
  "(0::nat) < length [object [(''a'', Defined (JNum 1))]] \<and> ''b'' \<in> set [''a'', ''b'']
   \<and> ''b'' \<noteq> ''__proto__''
   \<and> ''b'' \<notin> set (Object_keys ([object [(''a'', Defined (JNum 1))]] ! 0))
   \<and> prototype ([object [(''a'', Defined (JNum 1))]] ! 0) \<in> {ObjectProto, NullProto}
   \<and> ''b'' \<notin> set objectPrototypeFunctions
   \<and> length (project [object [(''a'', Defined (JNum 1))]] [''a'', ''b'']) = 1
   \<and> ''b'' \<in> set (Object_keys (project [object [(''a'', Defined (JNum 1))]] [''a'', ''b''] ! 0))
   \<and> map_of (props (project [object [(''a'', Defined (JNum 1))]] [''a'', ''b''] ! 0)) ''b''
       = Some Undefined
   \<and> map_of (props (project [object [(''a'', Defined (JNum 1))]] [''a'', ''b''] ! 0)) ''a''
       = Some (Defined (JNum 1))"
  using project_keeps_every_listed_field [of "[object [(''a'', Defined (JNum 1))]]" "[''a'', ''b'']" 0]
  by (simp add: Object_keys_def project_def projectRow_def getProp_def fromObjectPrototype_def
      objectPrototypeFunctions_def eval_defs)

subsection \<open>Export\<close>

text \<open>
  C9. The exported file is named after the input file, with the extension replaced by
  \<^verbatim>\<open>.xlsx\<close>, and without a file the click writes nothing and shows a message. The
  handler replaces the first occurrence of \<^verbatim>\<open>.json\<close> in the name, wherever it is: the
  rows of \<^verbatim>\<open>report.json.v2.json\<close> are written to \<^verbatim>\<open>report.xlsx.v2.json\<close>. When the file is
  taken out of the input while it is being read, the rows arrive with no file in the
  input: the click then ends in an uncaught \<^verbatim>\<open>TypeError\<close> and shows no message.
\<close>

theorem export_name_and_missing_file:
  "snd (handleConvertButtonClick
          (loadFile aHost ''report.json.v2.json'' (Inr (JArr [JObj [(''a'', JNull)]])) initial))
     = WriteFile ''report.xlsx.v2.json'' [object [(''a'', Defined JNull)]]
   \<and> specOutputName ''report.json.v2.json'' = ''report.json.v2.xlsx''
   \<and> jsonFileInput
       (readerOnload aHost (Inr (JArr [JObj [(''a'', JNull)]]))
         (handleJsonFileChange None (handleJsonFileChange (Some ''a.json'') initial))) = None
   \<and> snd (handleConvertButtonClick
          (readerOnload aHost (Inr (JArr [JObj [(''a'', JNull)]]))
            (handleJsonFileChange None (handleJsonFileChange (Some ''a.json'') initial))))
     = Uncaught TypeError
   \<and> messageDiv (fst (handleConvertButtonClick
          (readerOnload aHost (Inr (JArr [JObj [(''a'', JNull)]]))
            (handleJsonFileChange None (handleJsonFileChange (Some ''a.json'') initial))))) = []"
  by (simp add: handleConvertButtonClick_def handler_defs project_def projectRow_def getProp_def
      startsWith_def specOutputName_def stripExtension_def eval_defs)

end
